theory Spec2Isabelle
  imports Complex_Main "HOL-Library.AList"
begin

section \<open>The id mode of shellfish (cmd/id.go)\<close>

text \<open>
  The id mode turns a user's selection of halos (explicit IDs, an ID range, or ranks by
  M200m) into lines \<open>ID Snapshot\<close>, after removing the halos an exclusion strategy
  flags. This theory embeds \<^verbatim>\<open>cmd/id.go\<close>: the configuration and its validation,
  \<^verbatim>\<open>getIDs\<close>, \<^verbatim>\<open>convertSortedIDs\<close>, \<^verbatim>\<open>findOverlapSubs\<close> and \<^verbatim>\<open>Run\<close>.

  Go's \<^verbatim>\<open>int64\<close> (and \<^verbatim>\<open>int\<close>, 64 bits wide on the platforms shellfish runs on) is
  modelled by \<open>int\<close>, with the two's complement wrap-around written out where the code
  does arithmetic. \<^verbatim>\<open>float64\<close> is only ever compared and handed on by this file; it
  is modelled by \<open>real\<close>, which orders every float that is a number as Go does.
\<close>

subsection \<open>Errors\<close>

text \<open>
  Every function of the file that can fail returns a Go \<^verbatim>\<open>error\<close> built by
  \<^verbatim>\<open>fmt.Errorf\<close>, or panics. The constructors follow the taxonomy of the
  specification: \<open>ConfigError\<close> for the messages of \<^verbatim>\<open>validate\<close> and the snapshot
  checks of \<^verbatim>\<open>Run\<close> (the string names the variable at fault), \<open>RangeError\<close> for
  an ID or rank that a catalog does not have (with the number the message prints),
  \<open>CatalogIOError\<close> for a failed read, \<open>PreconditionError\<close> for malformed input to
  the grid and the finder. \<open>Panic\<close> is not a returned error: it is a
  Go panic, raised by \<^verbatim>\<open>panic(...)\<close> or by the runtime (an index out of range, a
  negative length), which unwinds the caller instead of returning to it.
\<close>

datatype error =
    ConfigError string
  | RangeError int
  | CatalogIOError
  | PreconditionError
  | Panic string

fun is_panic :: "error \<Rightarrow> bool" where
  "is_panic (Panic m) = True"
| "is_panic e = False"

definition wrap64 :: "int \<Rightarrow> int" where
  "wrap64 x = (x + 2 ^ 63) mod 2 ^ 64 - 2 ^ 63"

definition in_int64 :: "int \<Rightarrow> bool" where
  "in_int64 x = (- (2 ^ 63) \<le> x \<and> x < 2 ^ 63)"

subsection \<open>The configuration\<close>

record IDConfig =
  idType :: string
  ids :: "int list"
  idStart :: int
  idEnd :: int
  snap :: int
  mult :: int
  exclusionStrategy :: string
  exclusionRadiusMult :: real

text \<open>
  \<^verbatim>\<open>ReadConfig\<close> registers every variable with its default and lets
  \<^verbatim>\<open>parse.ReadConfig\<close> overwrite the ones the file sets. The parser is not part of
  this file; the parsed file is taken as a record that holds, for each variable, the
  value the file gives it, if any.
\<close>

record ConfigFile =
  fIDType :: "string option"
  fIDs :: "int list option"
  fIDStart :: "int option"
  fIDEnd :: "int option"
  fMult :: "int option"
  fSnap :: "int option"
  fExclusionStrategy :: "string option"
  fExclusionRadiusMult :: "real option"

definition var :: "'a option \<Rightarrow> 'a \<Rightarrow> 'a" where
  "var given dflt = (case given of None \<Rightarrow> dflt | Some v \<Rightarrow> v)"

definition readVars :: "ConfigFile \<Rightarrow> IDConfig" where
  "readVars f =
     \<lparr> idType = var (fIDType f) ''m200m'',
       ids = var (fIDs f) [],
       idStart = var (fIDStart f) (- 1),
       idEnd = var (fIDEnd f) (- 1),
       snap = var (fSnap f) (- 1),
       mult = var (fMult f) 1,
       exclusionStrategy = var (fExclusionStrategy f) ''subhalo'',
       exclusionRadiusMult = var (fExclusionRadiusMult f) 1 \<rparr>"

definition noFile :: ConfigFile where
  "noFile =
     \<lparr> fIDType = None, fIDs = None, fIDStart = None, fIDEnd = None, fMult = None,
       fSnap = None, fExclusionStrategy = None, fExclusionRadiusMult = None \<rparr>"

text \<open>The checks of \<^verbatim>\<open>validate\<close>, one definition for each, in the order of the source.\<close>

definition checkIDType :: "IDConfig \<Rightarrow> error option" where
  "checkIDType config =
     (if idType config = ''halo-id'' \<or> idType config = ''m200m'' then None
      else Some (ConfigError ''IDType''))"

definition checkExclusion :: "IDConfig \<Rightarrow> error option" where
  "checkExclusion config =
     (if exclusionStrategy config = ''none'' \<or> exclusionStrategy config = ''subhalo''
      then None
      else if exclusionStrategy config = ''overlap'' then
        (if exclusionRadiusMult config \<le> 0 then Some (ConfigError ''ExclusionRadiusMult'')
         else None)
      else Some (ConfigError ''ExclusionStrategy''))"

definition checkIDs :: "IDConfig \<Rightarrow> error option" where
  "checkIDs config =
     (if length (ids config) = 0 then
        (if idStart config = - 1 \<and> idEnd config = - 1 then Some (ConfigError ''IDs'')
         else if idStart config = - 1 then Some (ConfigError ''IDStart'')
         else if idEnd config = - 1 then Some (ConfigError ''IDEnd'')
         else if idEnd config < idStart config then Some (ConfigError ''IDEnd < IDStart'')
         else None)
      else None)"

definition checkSnap :: "IDConfig \<Rightarrow> error option" where
  "checkSnap config =
     (if snap config = - 1 then Some (ConfigError ''Snap'')
      else if snap config < 0 then Some (ConfigError ''Snap'')
      else None)"

definition checkMult :: "IDConfig \<Rightarrow> error option" where
  "checkMult config =
     (if mult config \<le> 0 then Some (ConfigError ''Mult'') else None)"

definition orElse :: "error option \<Rightarrow> error option \<Rightarrow> error option" where
  "orElse first rest = (case first of Some e \<Rightarrow> Some e | None \<Rightarrow> rest)"

definition validate :: "IDConfig \<Rightarrow> error option" where
  "validate config =
     orElse (checkIDType config)
       (orElse (checkExclusion config)
         (orElse (checkIDs config)
           (orElse (checkSnap config) (checkMult config))))"

text \<open>
  \<^verbatim>\<open>ReadConfig\<close>: with an empty file name the defaults stand and nothing is
  validated; a file that does not parse is the parser's error; otherwise the variables
  are read and validated.
\<close>

datatype configSource = NoFileName | Unparsable error | Parsed ConfigFile

fun ReadConfig :: "configSource \<Rightarrow> error + IDConfig" where
  "ReadConfig NoFileName = Inr (readVars noFile)"
| "ReadConfig (Unparsable e) = Inl e"
| "ReadConfig (Parsed f) =
     (case validate (readVars f) of Some e \<Rightarrow> Inl e | None \<Rightarrow> Inr (readVars f))"

subsection \<open>getIDs\<close>

text \<open>
  \<^verbatim>\<open>make([]int, n)\<close> panics when \<open>n\<close> is negative. The length \<^verbatim>\<open>idEnd-idStart\<close>
  is an \<^verbatim>\<open>int64\<close> difference, the entries \<^verbatim>\<open>int(idStart) + i\<close> are \<^verbatim>\<open>int\<close> sums.
  A slice too long for the memory of the machine is not modelled. \<open>- 1\<close> is the value
  of an \<^verbatim>\<open>IDStart\<close> that is not set: then the list of IDs is returned.
\<close>

definition getIDs :: "int \<Rightarrow> int \<Rightarrow> int list \<Rightarrow> error + int list" where
  "getIDs start end' idList =
     (if start \<noteq> - 1 then
        (let n = wrap64 (end' - start) in
         if n < 0 then Inl (Panic ''makeslice: len out of range'')
         else Inr (map (\<lambda>i. wrap64 (start + int i)) [0..<nat n]))
      else Inr idList)"

subsection \<open>The multiplication of the lines\<close>

text \<open>
  \<^verbatim>\<open>for i := range fLines { for j := 0; j < int(config.mult); j++ {
     mLines = append(mLines, fLines[i]) } }\<close>
\<close>

function repeatLine :: "'a list \<Rightarrow> 'a \<Rightarrow> int \<Rightarrow> int \<Rightarrow> 'a list" where
  "repeatLine mLines l j m =
     (if j < m then repeatLine (mLines @ [l]) l (j + 1) m else mLines)"
  by pat_completeness auto
termination
  by (relation "measure (\<lambda>(mLines, l, j, m). nat (m - j))") auto

declare repeatLine.simps [simp del]

fun multiplyLines :: "'a list \<Rightarrow> 'a list \<Rightarrow> int \<Rightarrow> 'a list" where
  "multiplyLines mLines [] m = mLines"
| "multiplyLines mLines (l # fLines) m = multiplyLines (repeatLine mLines l 0 m) fLines m"

subsection \<open>What id.go calls\<close>

text \<open>
  \<^verbatim>\<open>id.go\<close> calls functions of other packages and reads the global configuration.
  They are parameters of the model:
  \<^item> \<open>SnapMin\<close>, \<open>SnapMax\<close>, \<open>HaloPositionColumns\<close>: fields of \<^verbatim>\<open>GlobalConfig\<close>;
  \<^item> \<open>getVectorBuffer s\<close>: the error, if any, of
    \<^verbatim>\<open>getVectorBuffer(e.ParticleCatalog(s, 0), ...)\<close>;
  \<^item> \<open>ReadSortedRockstarIDs s maxID\<close>: the result of \<^verbatim>\<open>memo.ReadSortedRockstarIDs\<close>;
  \<^item> \<open>ReadHeaders s\<close>: the result of \<^verbatim>\<open>memo.ReadHeaders\<close>, each header by its
    \<^verbatim>\<open>TotalWidth\<close>;
  \<^item> \<open>HostCount s rids width m j\<close>: what \<^verbatim>\<open>sf.HostCount(j)\<close> returns for the finder
    that lines 357 to 362 build for snapshot \<open>s\<close> from the halos \<open>rids\<close>, the
    width of the first header and the multiplier \<open>m\<close>, on a grid of
    \<^verbatim>\<open>finderCells\<close> cells per side (the error of \<^verbatim>\<open>memo.ReadRockstar\<close> is assigned
    there and never read);
  \<^item> \<open>FormatRow\<close>: how \<^verbatim>\<open>catalog.FormatCols\<close> prints the values of one row;
  \<^item> \<open>CommentString\<close>: the line \<^verbatim>\<open>catalog.CommentString\<close> returns for the columns
    \<^verbatim>\<open>ID\<close> and \<^verbatim>\<open>Snapshot\<close>.
\<close>

record Externals =
  SnapMin :: int
  SnapMax :: int
  HaloPositionColumns :: "int list"
  getVectorBuffer :: "int \<Rightarrow> error option"
  ReadSortedRockstarIDs :: "int \<Rightarrow> int \<Rightarrow> error + int list"
  ReadHeaders :: "int \<Rightarrow> error + real list"
  HostCount :: "int \<Rightarrow> int list \<Rightarrow> real \<Rightarrow> real \<Rightarrow> nat \<Rightarrow> int"
  FormatRow :: "int list \<Rightarrow> string"
  CommentString :: string

text \<open>Reading \<^verbatim>\<open>xs[i]\<close> and writing \<^verbatim>\<open>xs[i] = v\<close> panic out of range.\<close>

definition index :: "'a list \<Rightarrow> int \<Rightarrow> error + 'a" where
  "index xs i =
     (if 0 \<le> i \<and> i < int (length xs) then Inr (xs ! nat i)
      else Inl (Panic ''index out of range''))"

definition setAt :: "'a list \<Rightarrow> nat \<Rightarrow> 'a \<Rightarrow> error + 'a list" where
  "setAt xs i v =
     (if i < length xs then Inr (xs[i := v]) else Inl (Panic ''index out of range''))"

subsection \<open>convertSortedIDs\<close>

fun maxIDLoop :: "int \<Rightarrow> int list \<Rightarrow> int" where
  "maxIDLoop maxID [] = maxID"
| "maxIDLoop maxID (r # rawIDs) = maxIDLoop (if r > maxID then r else maxID) rawIDs"

fun lookupRanks :: "int list \<Rightarrow> int list \<Rightarrow> error + int list" where
  "lookupRanks rids [] = Inr []"
| "lookupRanks rids (r # rawIDs) =
     (case index rids r of
        Inl e \<Rightarrow> Inl e
      | Inr v \<Rightarrow>
          (case lookupRanks rids rawIDs of Inl e \<Rightarrow> Inl e | Inr vs \<Rightarrow> Inr (v # vs)))"

definition convertSortedIDs :: "Externals \<Rightarrow> int list \<Rightarrow> int \<Rightarrow> error + int list" where
  "convertSortedIDs ext rawIDs sn =
     (case ReadSortedRockstarIDs ext sn (maxIDLoop 0 rawIDs) of
        Inl e \<Rightarrow> Inl e
      | Inr rids \<Rightarrow> lookupRanks rids rawIDs)"

subsection \<open>findOverlapSubs\<close>

text \<open>
  The two Go maps \<^verbatim>\<open>snapGroups\<close> and \<^verbatim>\<open>groupIdxs\<close> are association lists, a new
  key going to the end; a missing key reads as the empty slice, as in Go.
\<close>

definition getGroup :: "(int \<times> 'a list) list \<Rightarrow> int \<Rightarrow> 'a list" where
  "getGroup m k = (case map_of m k of None \<Rightarrow> [] | Some g \<Rightarrow> g)"

definition appendGroup :: "(int \<times> 'a list) list \<Rightarrow> int \<Rightarrow> 'a \<Rightarrow> (int \<times> 'a list) list" where
  "appendGroup m k v = AList.update k (getGroup m k @ [v]) m"

fun groupLoop ::
  "nat \<Rightarrow> int list \<Rightarrow> int list \<Rightarrow> (int \<times> int list) list \<Rightarrow> (int \<times> nat list) list \<Rightarrow>
   error + ((int \<times> int list) list \<times> (int \<times> nat list) list)" where
  "groupLoop i [] snaps snapGroups groupIdxs = Inr (snapGroups, groupIdxs)"
| "groupLoop i (h # rawIDs) snaps snapGroups groupIdxs =
     (case index snaps (int i) of
        Inl e \<Rightarrow> Inl e
      | Inr sn \<Rightarrow>
          groupLoop (Suc i) rawIDs snaps (appendGroup snapGroups sn h) (appendGroup groupIdxs sn i))"

text \<open>
  The linear search of lines 367 to 374, at position \<open>j\<close> of a list of \<open>n\<close> IDs with
  \<open>rest\<close> still to visit. \<open>Some b\<close> is the assignment \<^verbatim>\<open>isSub[origIdx] = b\<close>;
  \<open>None\<close> is a loop that ends without assigning.
\<close>

fun searchID :: "(nat \<Rightarrow> int) \<Rightarrow> int \<Rightarrow> nat \<Rightarrow> nat \<Rightarrow> int list \<Rightarrow> error + bool option" where
  "searchID hostCount h n j [] = Inr None"
| "searchID hostCount h n j (checkID # rest) =
     (if checkID = h then Inr (Some (hostCount j > 0))
      else if int j = int n - 1 then Inl (RangeError h)
      else searchID hostCount h n (Suc j) rest)"

fun markGroup ::
  "(nat \<Rightarrow> int) \<Rightarrow> int list \<Rightarrow> nat list \<Rightarrow> nat \<Rightarrow> int list \<Rightarrow> bool list \<Rightarrow> error + bool list" where
  "markGroup hostCount rids idxs i [] isSub = Inr isSub"
| "markGroup hostCount rids idxs i (h # grp) isSub =
     (case index idxs (int i) of
        Inl e \<Rightarrow> Inl e
      | Inr origIdx \<Rightarrow>
          (case searchID hostCount h (length rids) 0 rids of
             Inl e \<Rightarrow> Inl e
           | Inr None \<Rightarrow> markGroup hostCount rids idxs (Suc i) grp isSub
           | Inr (Some b) \<Rightarrow>
               (case setAt isSub origIdx b of
                  Inl e \<Rightarrow> Inl e
                | Inr isSub' \<Rightarrow> markGroup hostCount rids idxs (Suc i) grp isSub')))"

text \<open>
  \<^verbatim>\<open>for snap, group := range snapGroups\<close>. Go visits the keys of a map in no fixed
  order; the model visits them in the order of the association list. \<^verbatim>\<open>Run\<close> only
  ever builds one group, so that the order does not show in its result.
\<close>

fun forGroups ::
  "Externals \<Rightarrow> real \<Rightarrow> real \<Rightarrow> (int \<times> nat list) list \<Rightarrow> (int \<times> int list) list \<Rightarrow>
   bool list \<Rightarrow> error + bool list" where
  "forGroups ext width m groupIdxs [] isSub = Inr isSub"
| "forGroups ext width m groupIdxs ((sn, grp) # snapGroups) isSub =
     (case ReadSortedRockstarIDs ext sn (- 1) of
        Inl e \<Rightarrow> Inl e
      | Inr rids \<Rightarrow>
          (case markGroup (HostCount ext sn rids width m) rids (getGroup groupIdxs sn) 0
                  grp isSub of
             Inl e \<Rightarrow> Inl e
           | Inr isSub' \<Rightarrow> forGroups ext width m groupIdxs snapGroups isSub'))"

definition findOverlapSubs ::
  "Externals \<Rightarrow> int list \<Rightarrow> int list \<Rightarrow> IDConfig \<Rightarrow> error + bool list" where
  "findOverlapSubs ext rawIDs snaps config =
     (case groupLoop 0 rawIDs snaps [] [] of
        Inl e \<Rightarrow> Inl e
      | Inr (snapGroups, groupIdxs) \<Rightarrow>
          (case index snaps 0 of
             Inl e \<Rightarrow> Inl e
           | Inr s0 \<Rightarrow>
               (case ReadHeaders ext s0 of
                  Inl e \<Rightarrow> Inl e
                | Inr hds \<Rightarrow>
                    (case index hds 0 of
                       Inl e \<Rightarrow> Inl e
                     | Inr width \<Rightarrow>
                         forGroups ext width (exclusionRadiusMult config) groupIdxs snapGroups
                           (replicate (length rawIDs) False)))))"

subsection \<open>Run\<close>

text \<open>\<^verbatim>\<open>snaps = make([]int, len(rawIds)); for i := range snaps { snaps[i] = int(config.snap) }\<close>\<close>

definition fillSnaps :: "nat \<Rightarrow> int \<Rightarrow> int list" where
  "fillSnaps n sn = foldl (\<lambda>snaps i. snaps[i := sn]) (replicate n 0) [0..<n]"

text \<open>
  The switch on \<^verbatim>\<open>config.idType\<close>: the resolved IDs and their snapshots. Both branches
  read \<^verbatim>\<open>snaps[0]\<close> to open the particle catalog.
\<close>

definition resolveIDs :: "Externals \<Rightarrow> IDConfig \<Rightarrow> int list \<Rightarrow> error + (int list \<times> int list)" where
  "resolveIDs ext config rawIds =
     (if idType config = ''halo-id'' then
        (let snaps = fillSnaps (length rawIds) (snap config) in
         case index snaps 0 of
           Inl e \<Rightarrow> Inl e
         | Inr s0 \<Rightarrow>
             (case getVectorBuffer ext s0 of
                Some e \<Rightarrow> Inl e
              | None \<Rightarrow> Inr (rawIds, snaps)))
      else if idType config = ''m200m'' then
        (let snaps = fillSnaps (length rawIds) (snap config) in
         case index snaps 0 of
           Inl e \<Rightarrow> Inl e
         | Inr s0 \<Rightarrow>
             (case getVectorBuffer ext s0 of
                Some e \<Rightarrow> Inl e
              | None \<Rightarrow>
                  (case convertSortedIDs ext rawIds (snap config) of
                     Inl e \<Rightarrow> Inl e
                   | Inr resolved \<Rightarrow> Inr (resolved, snaps))))
      else Inl (Panic ''Impossible''))"

text \<open>
  The switch on \<^verbatim>\<open>config.exclusionStrategy\<close>. It has no default case: any other
  strategy leaves \<^verbatim>\<open>exclude\<close> as it was made, all false.
\<close>

definition tagSubhalos ::
  "Externals \<Rightarrow> IDConfig \<Rightarrow> int list \<Rightarrow> int list \<Rightarrow> error + bool list" where
  "tagSubhalos ext config resolved snaps =
     (if exclusionStrategy config = ''none'' then Inr (replicate (length resolved) False)
      else if exclusionStrategy config = ''subhalo'' then
        Inl (Panic ''subhalo is not implemented'')
      else if exclusionStrategy config = ''overlap'' then
        findOverlapSubs ext resolved snaps config
      else Inr (replicate (length resolved) False))"

text \<open>
  Modelled from the spec: \<^verbatim>\<open>catalog.FormatCols\<close> is not among the sources. Sections 4.5
  and 6 of the specification: one formatted row per entry, with the integer columns in
  their fixed order. \<^verbatim>\<open>FormatCols(intCols, floatCols, colOrder)\<close>, called by \<^verbatim>\<open>Run\<close> with
  no float column, returns one line per row; the line of row \<open>i\<close> prints entry \<open>i\<close> of
  the columns that \<^verbatim>\<open>colOrder\<close> lists, in that order, as \<open>fmt\<close> prints a row.
\<close>

definition FormatCols :: "(int list \<Rightarrow> string) \<Rightarrow> int list list \<Rightarrow> nat list \<Rightarrow> string list" where
  "FormatCols fmt intCols colOrder =
     map (\<lambda>i. fmt (map (\<lambda>c. intCols ! c ! i) colOrder))
       [0..<(case intCols of [] \<Rightarrow> 0 | col # _ \<Rightarrow> length col)]"

text \<open>\<^verbatim>\<open>for i := range lines { if !exclude[i] { fLines = append(fLines, lines[i]) } }\<close>\<close>

fun filterLines :: "'a list \<Rightarrow> 'a list \<Rightarrow> nat \<Rightarrow> bool list \<Rightarrow> error + 'a list" where
  "filterLines fLines [] i exclude = Inr fLines"
| "filterLines fLines (l # lines) i exclude =
     (case index exclude (int i) of
        Inl e \<Rightarrow> Inl e
      | Inr x \<Rightarrow> filterLines (if \<not> x then fLines @ [l] else fLines) lines (Suc i) exclude)"

definition generateLines ::
  "Externals \<Rightarrow> IDConfig \<Rightarrow> int list \<Rightarrow> int list \<Rightarrow> bool list \<Rightarrow> error + string list" where
  "generateLines ext config resolved snaps exclude =
     (case filterLines [] (FormatCols (FormatRow ext) [resolved, snaps] [0, 1]) 0 exclude of
        Inl e \<Rightarrow> Inl e
      | Inr fLines \<Rightarrow> Inr (CommentString ext # multiplyLines [] fLines (mult config)))"

text \<open>The part of \<^verbatim>\<open>Run\<close> under the comment \<^verbatim>\<open>// Get IDs and snapshots\<close>.\<close>

definition getIDsAndSnapshots :: "Externals \<Rightarrow> IDConfig \<Rightarrow> error + (int list \<times> int list)" where
  "getIDsAndSnapshots ext config =
     (case getIDs (idStart config) (idEnd config) (ids config) of
        Inl e \<Rightarrow> Inl e
      | Inr rawIds \<Rightarrow>
          if length (HaloPositionColumns ext) < 3 then Inl (Panic ''index out of range'')
          else resolveIDs ext config rawIds)"

definition Run :: "Externals \<Rightarrow> IDConfig \<Rightarrow> error + string list" where
  "Run ext config =
     (if snap config = - 1 then Inl (ConfigError ''Snap'')
      else if snap config < SnapMin ext \<or> snap config > SnapMax ext then
        Inl (ConfigError ''Snap'')
      else
        (case getIDsAndSnapshots ext config of
           Inl e \<Rightarrow> Inl e
         | Inr (resolved, snaps) \<Rightarrow>
             (case tagSubhalos ext config resolved snaps of
                Inl e \<Rightarrow> Inl e
              | Inr exclude \<Rightarrow> generateLines ext config resolved snaps exclude)))"

subsection \<open>A catalog and two configurations to run the model on\<close>

text \<open>
  Snapshot 10 holds five halos; sorted by mass their IDs are 7, 3, 9, 1, 2. The halo of
  rank 1 lies within a larger one. A row prints its values in decimal, each followed by
  a blank.
\<close>

function showNat :: "nat \<Rightarrow> string" where
  "showNat n =
     (if n < 10 then [''0123456789'' ! n] else showNat (n div 10) @ [''0123456789'' ! (n mod 10)])"
  by pat_completeness auto
termination
  by (relation "measure id") auto

declare showNat.simps [simp del]

definition showInt :: "int \<Rightarrow> string" where
  "showInt v = (if v < 0 then CHR ''-'' # showNat (nat (- v)) else showNat (nat v))"

definition exampleRow :: "int list \<Rightarrow> string" where
  "exampleRow vs = concat (map (\<lambda>v. showInt v @ '' '') vs)"

definition exampleExternals :: Externals where
  "exampleExternals =
     \<lparr> SnapMin = 0, SnapMax = 100, HaloPositionColumns = [17, 18, 19],
       getVectorBuffer = (\<lambda>s. None),
       ReadSortedRockstarIDs =
         (\<lambda>s maxID. if s = 10 then Inr [7, 3, 9, 1, 2] else Inl CatalogIOError),
       ReadHeaders = (\<lambda>s. Inr [125]),
       HostCount = (\<lambda>s rids width m j. if j = 1 then 1 else 0),
       FormatRow = exampleRow,
       CommentString = ''# Column contents: ID(0) Snapshot(1)'' \<rparr>"

definition exampleFile :: ConfigFile where
  "exampleFile = noFile \<lparr> fSnap := Some 10, fIDs := Some [0, 1, 2] \<rparr>"

definition overlapFile :: ConfigFile where
  "overlapFile = exampleFile \<lparr> fExclusionStrategy := Some ''overlap'', fMult := Some 2 \<rparr>"

text \<open>
  A snapshot without halos, and a configuration that selects the halo of ID 7 in it by
  its ID, under the strategy \<open>overlap\<close>.
\<close>

definition emptyCatalog :: Externals where
  "emptyCatalog = exampleExternals \<lparr> ReadSortedRockstarIDs := (\<lambda>s maxID. Inr []) \<rparr>"

definition haloIDFile :: ConfigFile where
  "haloIDFile =
     noFile \<lparr> fSnap := Some 10, fIDType := Some ''halo-id'', fIDs := Some [7],
       fExclusionStrategy := Some ''overlap'' \<rparr>"

subsection \<open>The sorted IDs of the catalog cache\<close>

text \<open>
  Modelled from the spec: \<^verbatim>\<open>memo.ReadSortedRockstarIDs\<close>, which \<^verbatim>\<open>convertSortedIDs\<close>
  and \<^verbatim>\<open>findOverlapSubs\<close> call, is not among the sources. The specification describes it
  as \<^verbatim>\<open>SortedIDs(snapshot, maxRank)\<close>: it returns the IDs of the snapshot's catalog in the
  order of descending mass, a list with at least \<^verbatim>\<open>maxRank+1\<close> entries, bounded to the
  requested size, or the full catalog if \<^verbatim>\<open>maxRank == -1\<close>; a storage failure is a
  \<^verbatim>\<open>CatalogIOError\<close>; a requested mass rank that exceeds the catalog size, for which no
  such list exists, is a \<^verbatim>\<open>RangeError\<close>. \<open>catalog s\<close> is the sorted catalog of
  snapshot \<open>s\<close>, \<open>None\<close> when it cannot be read.
\<close>

definition SortedIDs :: "(int \<Rightarrow> int list option) \<Rightarrow> int \<Rightarrow> int \<Rightarrow> error + int list" where
  "SortedIDs catalog sn maxRank =
     (case catalog sn of
        None \<Rightarrow> Inl CatalogIOError
      | Some sortedList \<Rightarrow>
          if maxRank = - 1 then Inr sortedList
          else if int (length sortedList) \<le> maxRank then Inl (RangeError maxRank)
          else Inr (take (nat (maxRank + 1)) sortedList))"

text \<open>
  A snapshot 10 of three halos behind the sorted IDs of the specification, and a
  configuration that asks for the halo of rank 4.
\<close>

definition threeHalos :: Externals where
  "threeHalos =
     exampleExternals \<lparr> ReadSortedRockstarIDs :=
       SortedIDs (\<lambda>s. if s = 10 then Some [7, 3, 9] else None) \<rparr>"

definition rankFourFile :: ConfigFile where
  "rankFourFile = exampleFile \<lparr> fIDs := Some [4], fExclusionStrategy := Some ''none'' \<rparr>"

subsection \<open>The spatial grid and the overlap finder\<close>




definition cellWidth :: "nat \<Rightarrow> real \<Rightarrow> real" where
  "cellWidth cells width = width / real cells"

definition wrapCoord :: "real \<Rightarrow> real \<Rightarrow> real" where
  "wrapCoord width x = x - width * of_int \<lfloor>x / width\<rfloor>"

definition cellIndex :: "nat \<Rightarrow> real \<Rightarrow> real \<Rightarrow> int" where
  "cellIndex cells width x = \<lfloor>wrapCoord width x / cellWidth cells width\<rfloor> mod int cells"







definition inRing :: "nat \<Rightarrow> int \<Rightarrow> int \<Rightarrow> int \<Rightarrow> bool" where
  "inRing cells k q c = ((c - q) mod int cells \<le> k \<or> (q - c) mod int cells \<le> k)"














section \<open>Lemmas\<close>

subsection \<open>The multiplication of the lines\<close>

lemma repeatLine_replicate:
  "repeatLine mLines l j m = mLines @ replicate (nat (m - j)) l"
proof (induction mLines l j m rule: repeatLine.induct)
  case (1 mLines l j m)
  show ?case
  proof (cases "j < m")
    case True
    then have "nat (m - j) = Suc (nat (m - (j + 1)))" by simp
    with True "1" show ?thesis
      by (simp add: repeatLine.simps [of mLines l j m])
  next
    case False
    then show ?thesis
      by (simp add: repeatLine.simps [of mLines l j m])
  qed
qed

lemma multiplyLines_concat:
  "multiplyLines mLines fLines m = mLines @ concat (map (replicate (nat m)) fLines)"
  by (induction fLines arbitrary: mLines) (simp_all add: repeatLine_replicate)

subsection \<open>getIDs\<close>

lemma wrap64_id: "in_int64 x \<Longrightarrow> wrap64 x = x"
  by (simp add: wrap64_def in_int64_def)

lemma getIDs_range:
  assumes "s \<noteq> - 1" and "s \<le> e" and "in_int64 s" and "in_int64 e" and "in_int64 (e - s)"
  shows "getIDs s e idList = Inr (map (\<lambda>i. s + int i) [0..<nat (e - s)])"
proof -
  have "wrap64 (s + int i) = s + int i" if "i < nat (e - s)" for i
  proof -
    from that assms have "in_int64 (s + int i)"
      by (simp add: in_int64_def)
    then show ?thesis by (rule wrap64_id)
  qed
  with assms show ?thesis
    by (simp add: getIDs_def wrap64_id Let_def)
qed

subsection \<open>validate\<close>

lemma validate_steps:
  "validate c =
     (case checkIDType c of Some e \<Rightarrow> Some e | None \<Rightarrow>
        (case checkExclusion c of Some e \<Rightarrow> Some e | None \<Rightarrow>
           (case checkIDs c of Some e \<Rightarrow> Some e | None \<Rightarrow>
              (case checkSnap c of Some e \<Rightarrow> Some e | None \<Rightarrow> checkMult c))))"
  by (simp add: validate_def orElse_def)

lemma checkIDType_cases:
  "checkIDType c = None \<or> checkIDType c = Some (ConfigError ''IDType'')"
  by (simp add: checkIDType_def)

lemma validate_subhalo_as_none:
  assumes "exclusionStrategy c = ''subhalo''"
  shows "validate c = validate (c \<lparr> exclusionStrategy := ''none'' \<rparr>)"
  using assms
  by (simp add: validate_steps checkIDType_def checkExclusion_def checkIDs_def
      checkSnap_def checkMult_def)

subsection \<open>The loops of Run\<close>

lemma fillSnaps_aux:
  "k \<le> length xs \<Longrightarrow>
   foldl (\<lambda>snaps i. snaps[i := sn]) xs [0..<k] = replicate k sn @ drop k xs"
proof (induction k)
  case 0
  then show ?case by simp
next
  case (Suc k)
  then have "(replicate k sn @ drop k xs)[k := sn] = replicate (Suc k) sn @ drop (Suc k) xs"
    by (simp add: list_update_append replicate_append_same upd_conv_take_nth_drop
        flip: Cons_nth_drop_Suc)
  with Suc show ?case by simp
qed

lemma fillSnaps_replicate: "fillSnaps n sn = replicate n sn"
  by (simp add: fillSnaps_def fillSnaps_aux)

lemma lookupRanks_length: "lookupRanks rids rawIDs = Inr hs \<Longrightarrow> length hs = length rawIDs"
  by (induction rawIDs arbitrary: hs) (auto split: sum.splits)

lemma filterLines_zip:
  "filterLines fLines lines i exclude = Inr out \<Longrightarrow>
   out = fLines @ map fst (filter (\<lambda>(l, x). \<not> x) (zip lines (drop i exclude)))"
proof (induction lines arbitrary: fLines i)
  case Nil
  then show ?case by simp
next
  case (Cons l lines)
  from Cons.prems have i: "i < length exclude"
    by (auto simp: index_def split: sum.splits if_splits)
  then have d: "drop i exclude = exclude ! i # drop (Suc i) exclude"
    by (simp add: Cons_nth_drop_Suc)
  from Cons.prems i
  have "filterLines (if \<not> exclude ! i then fLines @ [l] else fLines) lines (Suc i) exclude
          = Inr out"
    by (simp add: index_def)
  from Cons.IH [OF this] show ?case
    by (simp add: d)
qed

lemma filterLines_length:
  "filterLines fLines lines i exclude = Inr out \<Longrightarrow> lines \<noteq> [] \<Longrightarrow>
   i + length lines \<le> length exclude"
proof (induction lines arbitrary: fLines i)
  case Nil
  then show ?case by simp
next
  case (Cons l lines)
  from Cons.prems have i: "i < length exclude"
    by (auto simp: index_def split: sum.splits if_splits)
  with Cons.prems
  have r: "filterLines (if \<not> exclude ! i then fLines @ [l] else fLines) lines (Suc i) exclude
          = Inr out"
    by (simp add: index_def)
  show ?case
  proof (cases lines)
    case Nil
    with i show ?thesis by simp
  next
    case (Cons a as)
    with Cons.IH [OF r] show ?thesis by simp
  qed
qed

lemma FormatCols_two:
  assumes "length snaps = length resolved"
  shows "FormatCols fmt [resolved, snaps] [0, 1] =
    map (\<lambda>(h, s). fmt [h, s]) (zip resolved snaps)"
proof (rule nth_equalityI)
  show "length (FormatCols fmt [resolved, snaps] [0, 1]) =
    length (map (\<lambda>(h, s). fmt [h, s]) (zip resolved snaps))"
    using assms by (simp add: FormatCols_def)
next
  fix i assume "i < length (FormatCols fmt [resolved, snaps] [0, 1])"
  then have "i < length resolved" by (simp add: FormatCols_def)
  with assms show "FormatCols fmt [resolved, snaps] [0, 1] ! i =
    map (\<lambda>(h, s). fmt [h, s]) (zip resolved snaps) ! i"
    by (simp add: FormatCols_def)
qed

lemma FormatCols_snap:
  "FormatCols fmt [resolved, replicate (length resolved) sn] [0, 1] = map (\<lambda>h. fmt [h, sn]) resolved"
proof -
  have "FormatCols fmt [resolved, replicate (length resolved) sn] [0, 1] =
      map (\<lambda>(h, s). fmt [h, s]) (zip resolved (replicate (length resolved) sn))"
    by (rule FormatCols_two) simp
  also have "\<dots> = map (\<lambda>h. fmt [h, sn]) resolved"
    by (rule nth_equalityI) simp_all
  finally show ?thesis .
qed

lemma surviving_rows:
  "map fst (filter (\<lambda>(l, x). \<not> x) (zip (map f hs) exclude)) =
   map (\<lambda>(h, x). f h) (filter (\<lambda>(h, x). \<not> x) (zip hs exclude))"
proof -
  have "zip (map f hs) exclude = map (\<lambda>(h, x). (f h, x)) (zip hs exclude)"
    by (simp add: zip_map1)
  then show ?thesis
    by (simp add: filter_map o_def split_def)
qed

lemma rows_map:
  "concat (map (\<lambda>(h, x). replicate m (f h)) zs) = map f (concat (map (\<lambda>(h, x). replicate m h) zs))"
  by (induction zs) auto

subsection \<open>The stages of Run\<close>

lemma resolveIDs_snaps:
  assumes "resolveIDs ext config rawIds = Inr (resolved, snaps)"
  shows "snaps = replicate (length rawIds) (snap config) \<and> length resolved = length rawIds \<and> rawIds \<noteq> []"
proof -
  have ne: "rawIds \<noteq> []"
    using assms
    by (auto simp: resolveIDs_def fillSnaps_replicate index_def split: if_splits)
  from assms show ?thesis
    by (auto simp: resolveIDs_def fillSnaps_replicate Let_def ne convertSortedIDs_def
        split: if_splits sum.splits option.splits dest: lookupRanks_length)
qed

lemma generateLines_rows:
  assumes "generateLines ext config resolved (replicate (length resolved) sn) exclude = Inr out"
  shows "out = CommentString ext #
           concat (map (\<lambda>(h, x). replicate (nat (mult config)) (FormatRow ext [h, sn]))
             (filter (\<lambda>(h, x). \<not> x) (zip resolved exclude)))"
proof -
  from assms obtain fLines where
    f: "filterLines [] (map (\<lambda>h. FormatRow ext [h, sn]) resolved) 0 exclude = Inr fLines"
    and out: "out = CommentString ext # multiplyLines [] fLines (mult config)"
    unfolding generateLines_def FormatCols_snap by (auto split: sum.splits)
  from filterLines_zip [OF f]
  have "fLines = map (\<lambda>(h, x). FormatRow ext [h, sn])
      (filter (\<lambda>(h, x). \<not> x) (zip resolved exclude))"
    by (simp add: surviving_rows)
  with out show ?thesis
    by (simp add: multiplyLines_concat map_concat o_def split_def)
qed

lemma generateLines_length:
  assumes "generateLines ext config resolved (replicate (length resolved) sn) exclude = Inr out"
  shows "length resolved \<le> length exclude"
proof (cases resolved)
  case Nil then show ?thesis by simp
next
  case (Cons a as)
  from assms obtain fLines where
    f: "filterLines [] (map (\<lambda>h. FormatRow ext [h, sn]) resolved) 0 exclude = Inr fLines"
    unfolding generateLines_def FormatCols_snap by (auto split: sum.splits)
  from filterLines_length [OF f] Cons show ?thesis by simp
qed

lemma Run_stages:
  "Run ext config = Inr out \<Longrightarrow>
   \<exists>resolved snaps exclude. getIDsAndSnapshots ext config = Inr (resolved, snaps) \<and>
     tagSubhalos ext config resolved snaps = Inr exclude \<and>
     generateLines ext config resolved snaps exclude = Inr out"
  by (auto simp: Run_def split: if_splits sum.splits)

lemma getIDsAndSnapshots_snaps:
  assumes "getIDsAndSnapshots ext config = Inr (resolved, snaps)"
  shows "snaps = replicate (length resolved) (snap config) \<and> resolved \<noteq> []"
proof -
  from assms obtain rawIds where "resolveIDs ext config rawIds = Inr (resolved, snaps)"
    by (auto simp: getIDsAndSnapshots_def split: sum.splits if_splits)
  from resolveIDs_snaps [OF this] show ?thesis by auto
qed

lemma Run_rows:
  assumes "Run ext config = Inr out"
  shows "\<exists>resolved snaps exclude.
           getIDsAndSnapshots ext config = Inr (resolved, snaps) \<and>
           tagSubhalos ext config resolved snaps = Inr exclude \<and>
           length resolved \<le> length exclude \<and>
           out = CommentString ext #
             concat (map (\<lambda>(h, x). replicate (nat (mult config)) (FormatRow ext [h, snap config]))
               (filter (\<lambda>(h, x). \<not> x) (zip resolved exclude)))"
proof -
  from Run_stages [OF assms] obtain resolved snaps exclude where
    g: "getIDsAndSnapshots ext config = Inr (resolved, snaps)" and
    t: "tagSubhalos ext config resolved snaps = Inr exclude" and
    l: "generateLines ext config resolved snaps exclude = Inr out"
    by blast
  from getIDsAndSnapshots_snaps [OF g]
  have s: "snaps = replicate (length resolved) (snap config)" by simp
  from l s have "length resolved \<le> length exclude"
    by (simp add: generateLines_length)
  moreover from l s have "out = CommentString ext #
             concat (map (\<lambda>(h, x). replicate (nat (mult config)) (FormatRow ext [h, snap config]))
               (filter (\<lambda>(h, x). \<not> x) (zip resolved exclude)))"
    by (simp add: generateLines_rows)
  ultimately show ?thesis using g t by blast
qed

lemma tagSubhalos_subhalo:
  "exclusionStrategy c = ''subhalo'' \<Longrightarrow>
   tagSubhalos ext c resolved snaps = Inl (Panic ''subhalo is not implemented'')"
  by (simp add: tagSubhalos_def)

lemma Run_subhalo_panics:
  assumes "exclusionStrategy c = ''subhalo''"
    and "snap c \<noteq> - 1" and "SnapMin ext \<le> snap c" and "snap c \<le> SnapMax ext"
    and "getIDsAndSnapshots ext c = Inr p"
  shows "Run ext c = Inl (Panic ''subhalo is not implemented'')"
proof -
  obtain resolved snaps where "p = (resolved, snaps)" by (cases p)
  with assms show ?thesis
    by (simp add: Run_def tagSubhalos_subhalo)
qed

lemma Run_subhalo_no_rows:
  assumes "exclusionStrategy c = ''subhalo''"
  shows "Run ext c \<noteq> Inr out"
proof
  assume "Run ext c = Inr out"
  from Run_stages [OF this] obtain resolved snaps exclude where
    "tagSubhalos ext c resolved snaps = Inr exclude" by blast
  with assms show False
    by (simp add: tagSubhalos_subhalo)
qed

subsection \<open>The grouping and the search of findOverlapSubs\<close>

lemma appendGroup_same: "appendGroup [(sn, g)] sn v = [(sn, g @ [v])]"
  by (simp add: appendGroup_def getGroup_def)

lemma appendGroup_empty: "appendGroup [] sn v = [(sn, [v])]"
  by (simp add: appendGroup_def getGroup_def)

lemma groupLoop_one:
  "i + length hs \<le> n \<Longrightarrow>
   groupLoop i hs (replicate n sn) [(sn, g)] [(sn, k)] =
     Inr ([(sn, g @ hs)], [(sn, k @ [i..<i + length hs])])"
proof (induction hs arbitrary: i g k)
  case Nil
  then show ?case by simp
next
  case (Cons h hs)
  then have "index (replicate n sn) (int i) = Inr sn"
    by (simp add: index_def)
  moreover from Cons.prems have "Suc i + length hs \<le> n" by simp
  moreover have "[i..<i + length (h # hs)] = i # [Suc i..<Suc i + length hs]"
    by (simp del: upt_Suc add: upt_conv_Cons)
  ultimately show ?case
    using Cons.IH [of "Suc i" "g @ [h]" "k @ [i]"]
    by (simp del: upt_Suc add: appendGroup_same)
qed

lemma groupLoop_start:
  assumes "hs \<noteq> []"
  shows "groupLoop 0 hs (replicate (length hs) sn) [] [] =
     Inr ([(sn, hs)], [(sn, [0..<length hs])])"
proof -
  from assms obtain h t where hs: "hs = h # t" by (cases hs) auto
  have "index (replicate (length hs) sn) (int 0) = Inr sn"
    using hs by (simp add: index_def)
  moreover have "[0..<length hs] = 0 # [Suc 0..<Suc 0 + length t]"
    using hs by (simp del: upt_Suc add: upt_conv_Cons)
  moreover have "groupLoop (Suc 0) t (replicate (length hs) sn) [(sn, [h])] [(sn, [0])] =
     Inr ([(sn, [h] @ t)], [(sn, [0] @ [Suc 0..<Suc 0 + length t])])"
    by (rule groupLoop_one) (simp add: hs)
  ultimately show ?thesis
    using hs by (simp del: upt_Suc replicate.simps add: appendGroup_empty)
qed

text \<open>
  The linear search, started at the head of the list: an ID of the list is flagged by the
  host count of its first position in the list; an ID that a list with entries does not
  have is an error.
\<close>

lemma searchID_found:
  "h \<in> set rest \<Longrightarrow> j + length rest = n \<Longrightarrow>
   \<exists>k < length rest. rest ! k = h \<and> h \<notin> set (take k rest) \<and>
     searchID hostCount h n j rest = Inr (Some (hostCount (j + k) > 0))"
proof (induction rest arbitrary: j)
  case Nil
  then show ?case by simp
next
  case (Cons checkID rest)
  show ?case
  proof (cases "checkID = h")
    case True
    then show ?thesis by (intro exI [of _ 0]) simp
  next
    case False
    with Cons.prems have in_rest: "h \<in> set rest" by simp
    then have "rest \<noteq> []" by auto
    with Cons.prems have notlast: "int j \<noteq> int n - 1" by (cases rest) auto
    from Cons.prems have "Suc j + length rest = n" by simp
    from Cons.IH [OF in_rest this] obtain k where
      k: "k < length rest" "rest ! k = h" "h \<notin> set (take k rest)"
      "searchID hostCount h n (Suc j) rest = Inr (Some (hostCount (Suc j + k) > 0))"
      by blast
    with False notlast show ?thesis
      by (intro exI [of _ "Suc k"]) simp
  qed
qed

lemma searchID_absent:
  "h \<notin> set rest \<Longrightarrow> rest \<noteq> [] \<Longrightarrow> j + length rest = n \<Longrightarrow>
   searchID hostCount h n j rest = Inl (RangeError h)"
proof (induction rest arbitrary: j)
  case Nil
  then show ?case by simp
next
  case (Cons checkID rest)
  show ?case
  proof (cases rest)
    case Nil
    with Cons.prems show ?thesis by auto
  next
    case (Cons a as)
    with Cons.prems Cons.IH [of "Suc j"] show ?thesis by auto
  qed
qed

subsection \<open>convertSortedIDs\<close>

lemma maxIDLoop_ge: "m \<le> maxIDLoop m rawIDs"
proof (induction rawIDs arbitrary: m)
  case Nil
  then show ?case by simp
next
  case (Cons r rawIDs)
  have "m \<le> (if r > m then r else m)" by simp
  also have "\<dots> \<le> maxIDLoop (if r > m then r else m) rawIDs" by (rule Cons.IH)
  finally show ?case by simp
qed

lemma maxIDLoop_bounds: "r \<in> set rawIDs \<Longrightarrow> r \<le> maxIDLoop m rawIDs"
proof (induction rawIDs arbitrary: m)
  case Nil
  then show ?case by simp
next
  case (Cons a rawIDs)
  show ?case
  proof (cases "r = a")
    case True
    have "r \<le> (if a > m then a else m)" using True by simp
    also have "\<dots> \<le> maxIDLoop (if a > m then a else m) rawIDs" by (rule maxIDLoop_ge)
    finally show ?thesis by simp
  next
    case False
    with Cons.prems have "r \<in> set rawIDs" by simp
    from Cons.IH [OF this] show ?thesis by simp
  qed
qed

lemma convertSortedIDs_rank_too_large:
  assumes "ReadSortedRockstarIDs ext = SortedIDs catalog" and "catalog sn = Some sortedList"
    and "r \<in> set rawIDs" and "int (length sortedList) \<le> r"
  shows "convertSortedIDs ext rawIDs sn = Inl (RangeError (maxIDLoop 0 rawIDs))"
proof -
  from assms(3) have "r \<le> maxIDLoop 0 rawIDs" by (rule maxIDLoop_bounds)
  with assms(4) have "int (length sortedList) \<le> maxIDLoop 0 rawIDs" by simp
  moreover have "0 \<le> maxIDLoop 0 rawIDs" by (rule maxIDLoop_ge)
  ultimately show ?thesis
    using assms(1,2) by (simp add: convertSortedIDs_def SortedIDs_def)
qed

subsection \<open>The example runs\<close>

lemma showInt_ex: "showInt 7 = ''7''" "showInt 10 = ''10''" "showInt 3 = ''3''" "showInt 9 = ''9''"
  by (simp_all add: showInt_def showNat.simps)

lemma example_rows:
  "exampleRow [7, 10] = ''7 10 ''" "exampleRow [3, 10] = ''3 10 ''" "exampleRow [9, 10] = ''9 10 ''"
  by (simp_all add: exampleRow_def showInt_ex)

lemma example_getIDsAndSnapshots:
  assumes "idType c = ''m200m''" and "idStart c = - 1" and "ids c = [0, 1, 2]" and "snap c = 10"
  shows "getIDsAndSnapshots exampleExternals c = Inr ([7, 3, 9], [10, 10, 10])"
  using assms
  by (simp add: getIDsAndSnapshots_def getIDs_def exampleExternals_def resolveIDs_def
      fillSnaps_replicate index_def convertSortedIDs_def numeral_3_eq_3)

lemma example_findOverlapSubs:
  "findOverlapSubs exampleExternals [7, 3, 9] [10, 10, 10] c = Inr [False, True, False]"
  by (simp add: findOverlapSubs_def index_def appendGroup_def getGroup_def exampleExternals_def
      setAt_def numeral_3_eq_3)

lemma example_overlap_config:
  "idType (readVars overlapFile) = ''m200m''" "idStart (readVars overlapFile) = - 1"
  "ids (readVars overlapFile) = [0, 1, 2]" "snap (readVars overlapFile) = 10"
  "mult (readVars overlapFile) = 2" "exclusionStrategy (readVars overlapFile) = ''overlap''"
  by (simp_all add: readVars_def overlapFile_def exampleFile_def noFile_def var_def)

lemma example_overlap_Run:
  "Run exampleExternals (readVars overlapFile) =
     Inr [''# Column contents: ID(0) Snapshot(1)'', ''7 10 '', ''7 10 '', ''9 10 '', ''9 10 '']"
proof -
  let ?c = "readVars overlapFile"
  have g: "getIDsAndSnapshots exampleExternals ?c = Inr ([7, 3, 9], [10, 10, 10])"
    by (rule example_getIDsAndSnapshots) (simp_all add: example_overlap_config)
  have t: "tagSubhalos exampleExternals ?c [7, 3, 9] [10, 10, 10] = Inr [False, True, False]"
    by (simp add: tagSubhalos_def example_overlap_config example_findOverlapSubs)
  have f: "FormatCols exampleRow [[7, 3, 9], [10, 10, 10]] [0, 1] = [''7 10 '', ''3 10 '', ''9 10 '']"
    using FormatCols_two [of "[10, 10, 10]" "[7, 3, 9]" exampleRow]
    by (simp add: example_rows)
  have fr: "FormatRow exampleExternals = exampleRow"
    "CommentString exampleExternals = ''# Column contents: ID(0) Snapshot(1)''"
    "SnapMin exampleExternals = 0" "SnapMax exampleExternals = 100"
    by (simp_all add: exampleExternals_def)
  have l: "generateLines exampleExternals ?c [7, 3, 9] [10, 10, 10] [False, True, False] =
     Inr [''# Column contents: ID(0) Snapshot(1)'', ''7 10 '', ''7 10 '', ''9 10 '', ''9 10 '']"
    unfolding generateLines_def fr f
    by (simp add: index_def multiplyLines_concat example_overlap_config numeral_2_eq_2)
  show ?thesis
    by (simp add: Run_def g t l fr example_overlap_config)
qed

lemma example_config:
  "idType (readVars exampleFile) = ''m200m''" "idStart (readVars exampleFile) = - 1"
  "ids (readVars exampleFile) = [0, 1, 2]" "snap (readVars exampleFile) = 10"
  "mult (readVars exampleFile) = 1" "exclusionStrategy (readVars exampleFile) = ''subhalo''"
  by (simp_all add: readVars_def exampleFile_def noFile_def var_def)

lemma example_validate: "validate (readVars exampleFile) = None"
  by (simp add: validate_steps checkIDType_def checkExclusion_def checkIDs_def
      checkSnap_def checkMult_def example_config)

lemma example_limits: "SnapMin exampleExternals = 0" "SnapMax exampleExternals = 100"
  by (simp_all add: exampleExternals_def)

lemma example_Run_panics:
  "Run exampleExternals (readVars exampleFile) = Inl (Panic ''subhalo is not implemented'')"
proof -
  have "getIDsAndSnapshots exampleExternals (readVars exampleFile) = Inr ([7, 3, 9], [10, 10, 10])"
    by (rule example_getIDsAndSnapshots) (simp_all add: example_config)
  then show ?thesis
    by (simp add: Run_def example_config example_limits tagSubhalos_subhalo)
qed

lemma example_haloID_config:
  "idType (readVars haloIDFile) = ''halo-id''" "idStart (readVars haloIDFile) = - 1"
  "ids (readVars haloIDFile) = [7]" "snap (readVars haloIDFile) = 10"
  "mult (readVars haloIDFile) = 1" "exclusionStrategy (readVars haloIDFile) = ''overlap''"
  "exclusionRadiusMult (readVars haloIDFile) = 1"
  by (simp_all add: readVars_def haloIDFile_def noFile_def var_def)

lemma emptyCatalog_fields:
  "SnapMin emptyCatalog = 0" "SnapMax emptyCatalog = 100"
  "HaloPositionColumns emptyCatalog = [17, 18, 19]"
  "getVectorBuffer emptyCatalog = (\<lambda>s. None)"
  "ReadSortedRockstarIDs emptyCatalog = (\<lambda>s maxID. Inr [])"
  "ReadHeaders emptyCatalog = (\<lambda>s. Inr [125])"
  "FormatRow emptyCatalog = exampleRow"
  "CommentString emptyCatalog = ''# Column contents: ID(0) Snapshot(1)''"
  by (simp_all add: emptyCatalog_def exampleExternals_def)

subsection \<open>The grid and the finder\<close>

lemma wrapCoord_frac: "w \<noteq> 0 \<Longrightarrow> wrapCoord w x = w * frac (x / w)"
  by (simp add: wrapCoord_def frac_def algebra_simps)

lemma wrapCoord_range: "0 < w \<Longrightarrow> 0 \<le> wrapCoord w x \<and> wrapCoord w x < w"
  using frac_ge_0 [of "x / w"] frac_lt_1 [of "x / w"]
  by (simp add: wrapCoord_frac)

lemma cellIndex_range: "0 < cells \<Longrightarrow> 0 \<le> cellIndex cells w x \<and> cellIndex cells w x < int cells"
  by (simp add: cellIndex_def)

lemma inRing_iff:
  assumes "0 < cells" and "0 \<le> c" and "c < int cells"
  shows "inRing cells k q c \<longleftrightarrow> (\<exists>d. - k \<le> d \<and> d \<le> k \<and> (q + d) mod int cells = c)"
proof
  assume "inRing cells k q c"
  then consider "(c - q) mod int cells \<le> k" | "(q - c) mod int cells \<le> k"
    by (auto simp: inRing_def)
  then show "\<exists>d. - k \<le> d \<and> d \<le> k \<and> (q + d) mod int cells = c"
  proof cases
    case 1
    let ?d = "(c - q) mod int cells"
    from assms have "0 \<le> ?d" by simp
    moreover have "(q + ?d) mod int cells = c"
      using assms by (simp add: mod_add_right_eq)
    ultimately show ?thesis using 1 by (intro exI [of _ ?d]) simp
  next
    case 2
    let ?d = "- ((q - c) mod int cells)"
    from assms have "?d \<le> 0" by simp
    moreover have "(q + ?d) mod int cells = c"
      using assms by (simp add: mod_diff_right_eq)
    ultimately show ?thesis using 2 by (intro exI [of _ ?d]) simp
  qed
next
  assume "\<exists>d. - k \<le> d \<and> d \<le> k \<and> (q + d) mod int cells = c"
  then obtain d where d: "- k \<le> d" "d \<le> k" "(q + d) mod int cells = c" by blast
  show "inRing cells k q c"
  proof (cases "0 \<le> d")
    case True
    have "(c - q) mod int cells = ((q + d) mod int cells - q) mod int cells"
      by (simp add: d)
    also have "\<dots> = d mod int cells"
      by (simp add: mod_diff_left_eq)
    also have "\<dots> \<le> d"
      using True by (rule zmod_le_nonneg_dividend)
    finally show ?thesis using d by (simp add: inRing_def)
  next
    case False
    have "(q - c) mod int cells = (q - (q + d) mod int cells) mod int cells"
      by (simp add: d)
    also have "\<dots> = (- d) mod int cells"
      by (simp add: mod_diff_right_eq)
    also have "\<dots> \<le> - d"
      using False by (intro zmod_le_nonneg_dividend) simp
    finally show ?thesis using d by (simp add: inRing_def)
  qed
qed

















subsection \<open>The finder on the three halos\<close>














section \<open>The claims\<close>

text \<open>
  C1: with the sorted IDs as the specification describes them, whenever some requested
  rank \<open>r\<close> is at least the size of the snapshot's catalog, \<open>convertSortedIDs\<close>
  returns a \<open>RangeError\<close>: the largest requested rank, which it asks the cache for, is
  beyond the catalog too. A run in the mode \<open>m200m\<close> with these ranks returns no lines.
\<close>

theorem C1_rank_beyond_catalog_is_RangeError:
  "ReadSortedRockstarIDs ext = SortedIDs catalog \<Longrightarrow> catalog sn = Some sortedList \<Longrightarrow>
   r \<in> set rawIDs \<Longrightarrow> int (length sortedList) \<le> r \<Longrightarrow>
     convertSortedIDs ext rawIDs sn = Inl (RangeError (maxIDLoop 0 rawIDs)) \<and>
     int (length sortedList) \<le> maxIDLoop 0 rawIDs \<and>
     (idType config = ''m200m'' \<and> snap config = sn \<and>
      getIDs (idStart config) (idEnd config) (ids config) = Inr rawIDs \<longrightarrow>
        (\<forall>out. Run ext config \<noteq> Inr out))"
proof (intro conjI impI allI)
  assume a: "ReadSortedRockstarIDs ext = SortedIDs catalog" "catalog sn = Some sortedList"
    "r \<in> set rawIDs" "int (length sortedList) \<le> r"
  then show c: "convertSortedIDs ext rawIDs sn = Inl (RangeError (maxIDLoop 0 rawIDs))"
    by (rule convertSortedIDs_rank_too_large)
  from a(3) have "r \<le> maxIDLoop 0 rawIDs" by (rule maxIDLoop_bounds)
  with a(4) show "int (length sortedList) \<le> maxIDLoop 0 rawIDs" by simp
  fix out
  assume m: "idType config = ''m200m'' \<and> snap config = sn \<and>
      getIDs (idStart config) (idEnd config) (ids config) = Inr rawIDs"
  show "Run ext config \<noteq> Inr out"
  proof
    assume "Run ext config = Inr out"
    from Run_stages [OF this] obtain resolved snaps where
      "getIDsAndSnapshots ext config = Inr (resolved, snaps)" by blast
    with m c show False
      by (auto simp: getIDsAndSnapshots_def resolveIDs_def Let_def
          split: if_splits sum.splits option.splits)
  qed
qed

theorem C1_rank_beyond_catalog_witness:
  "convertSortedIDs threeHalos [4] 10 = Inl (RangeError 4) \<and>
   Run threeHalos (readVars rankFourFile) = Inl (RangeError 4)"
proof -
  let ?c = "readVars rankFourFile"
  have c: "idType ?c = ''m200m''" "idStart ?c = - 1" "ids ?c = [4]" "snap ?c = 10"
    "exclusionStrategy ?c = ''none''"
    by (simp_all add: readVars_def rankFourFile_def exampleFile_def noFile_def var_def)
  have e: "ReadSortedRockstarIDs threeHalos =
      SortedIDs (\<lambda>s. if s = 10 then Some [7, 3, 9] else None)"
    "SnapMin threeHalos = 0" "SnapMax threeHalos = 100"
    "HaloPositionColumns threeHalos = [17, 18, 19]" "getVectorBuffer threeHalos = (\<lambda>s. None)"
    by (simp_all add: threeHalos_def exampleExternals_def)
  have g: "getIDs (- 1) (idEnd ?c) [4] = Inr [4]"
    by (simp add: getIDs_def)
  from C1_rank_beyond_catalog_is_RangeError
    [of threeHalos "\<lambda>s. if s = 10 then Some [7, 3, 9] else None" 10 "[7, 3, 9]" 4 "[4]" ?c]
  have r: "convertSortedIDs threeHalos [4] 10 = Inl (RangeError 4)"
    by (simp add: e)
  then have "Run threeHalos ?c = Inl (RangeError 4)"
    by (simp add: Run_def getIDsAndSnapshots_def g resolveIDs_def fillSnaps_replicate index_def
        c e)
  with r show ?thesis by simp
qed

text \<open>
  C2, as stated, fails: the configuration that sets only \<open>Snap = 10\<close> and
  \<open>IDs = 0, 1, 2\<close> has the strategy \<open>subhalo\<close>; \<open>validate\<close> accepts it, and \<open>Run\<close>
  does not return an error for it but panics.
\<close>

theorem C2_subhalo_counterexample:
  "exclusionStrategy (readVars exampleFile) = ''subhalo'' \<and>
   validate (readVars exampleFile) = None \<and>
   Run exampleExternals (readVars exampleFile) = Inl (Panic ''subhalo is not implemented'') \<and>
   is_panic (Panic ''subhalo is not implemented'')"
  by (simp add: example_config example_validate example_Run_panics)

text \<open>
  C2, amended: for every configuration with the strategy \<open>subhalo\<close>, \<open>validate\<close> decides
  as it does for the same configuration with the strategy \<open>none\<close> (it does not reject the
  strategy), and \<open>Run\<close> never returns output lines, so the strategy is never silently
  skipped: \<open>Run\<close> fails before the exclusion step or, once its snapshot checks pass and
  the IDs and snapshots are resolved, panics with \<open>subhalo is not implemented\<close>.
\<close>

theorem C2_subhalo_panics_in_Run:
  "exclusionStrategy c = ''subhalo'' \<Longrightarrow>
     validate c = validate (c \<lparr> exclusionStrategy := ''none'' \<rparr>) \<and>
     (\<forall>out. Run ext c \<noteq> Inr out) \<and>
     (snap c \<noteq> - 1 \<and> SnapMin ext \<le> snap c \<and> snap c \<le> SnapMax ext \<and>
      (\<exists>p. getIDsAndSnapshots ext c = Inr p) \<longrightarrow>
        Run ext c = Inl (Panic ''subhalo is not implemented''))"
proof (intro conjI allI impI)
  assume s: "exclusionStrategy c = ''subhalo''"
  then show "validate c = validate (c \<lparr> exclusionStrategy := ''none'' \<rparr>)"
    by (rule validate_subhalo_as_none)
  fix out from s show "Run ext c \<noteq> Inr out"
    by (rule Run_subhalo_no_rows)
next
  assume s: "exclusionStrategy c = ''subhalo''"
  assume "snap c \<noteq> - 1 \<and> SnapMin ext \<le> snap c \<and> snap c \<le> SnapMax ext \<and>
      (\<exists>p. getIDsAndSnapshots ext c = Inr p)"
  then obtain p where "snap c \<noteq> - 1" "SnapMin ext \<le> snap c" "snap c \<le> SnapMax ext"
    "getIDsAndSnapshots ext c = Inr p" by blast
  with s show "Run ext c = Inl (Panic ''subhalo is not implemented'')"
    by (rule Run_subhalo_panics)
qed

theorem C2_subhalo_panics_in_Run_witness:
  "exclusionStrategy (readVars exampleFile) = ''subhalo'' \<and>
   validate (readVars exampleFile) =
     validate (readVars exampleFile \<lparr> exclusionStrategy := ''none'' \<rparr>) \<and>
   getIDsAndSnapshots exampleExternals (readVars exampleFile) = Inr ([7, 3, 9], [10, 10, 10]) \<and>
   Run exampleExternals (readVars exampleFile) = Inl (Panic ''subhalo is not implemented'')"
proof -
  let ?c = "readVars exampleFile"
  have g: "getIDsAndSnapshots exampleExternals ?c = Inr ([7, 3, 9], [10, 10, 10])"
    by (rule example_getIDsAndSnapshots) (simp_all add: example_config)
  then have "\<exists>p. getIDsAndSnapshots exampleExternals ?c = Inr p" by blast
  with C2_subhalo_panics_in_Run [of ?c exampleExternals] g show ?thesis
    by (simp add: example_config example_limits)
qed

text \<open>
  C3: given \<open>IDStart = s\<close> and \<open>IDEnd = e\<close> with \<open>s \<le> e\<close> and no list of IDs,
  \<open>getIDs\<close> is to return the integers from \<open>s\<close> through \<open>e\<close>, \<open>e - s + 1\<close> of them,
  as the comment of the example configuration says (\<^verbatim>\<open>start and end (inclusive)\<close>). The
  code makes a slice of \<open>e - s\<close> entries, \<open>s, ..., e - 1\<close> (lemma \<open>getIDs_range\<close>): it
  leaves \<open>e\<close> out. For \<open>IDStart = 10\<close> and \<open>IDEnd = 15\<close>, the values of the example
  configuration, it returns the five IDs 10 to 14, and for \<open>IDStart = IDEnd = 7\<close> none.
\<close>

theorem C3_getIDs_leaves_end_out:
  "getIDs 10 15 [] = Inr [10, 11, 12, 13, 14] \<and>
   getIDs 10 15 [] \<noteq> Inr [10, 11, 12, 13, 14, 15] \<and>
   getIDs 7 7 [] = Inr []"
proof -
  have a: "getIDs 10 15 [] = Inr (map (\<lambda>i. 10 + int i) [0..<nat (15 - 10)])"
    by (rule getIDs_range) (simp_all add: in_int64_def)
  have b: "getIDs 7 7 [] = Inr (map (\<lambda>i. 7 + int i) [0..<nat (7 - 7)])"
    by (rule getIDs_range) (simp_all add: in_int64_def)
  have "[0..<nat (15 - 10)] = [0, 1, 2, 3, 4]"
    by (simp add: upt_rec)
  with a b show ?thesis by simp
qed

text \<open>
  C4: for every list of surviving rows and every \<open>mult\<close> (so also every \<open>mult \<ge> 1\<close>),
  the multiplication step yields each surviving row \<open>mult\<close> times, the copies of one row
  next to each other and the rows in their original order; with \<open>mult = 3\<close> the rows
  \<open>[r1, r2]\<close> become \<open>[r1, r1, r1, r2, r2, r2]\<close>.
\<close>

theorem C4_multiplyLines_groups_copies:
  "multiplyLines [] fLines m = concat (map (replicate (nat m)) fLines) \<and>
   multiplyLines [] [r1, r2] 3 = [r1, r1, r1, r2, r2, r2]"
  by (simp add: multiplyLines_concat numeral_3_eq_3)

text \<open>
  C5: \<open>findOverlapSubs\<close> flags a selected ID by the host count at the position where
  the ID stands in the sorted IDs of the snapshot (lemma \<open>searchID_found\<close>), and an ID
  that the catalog does not have is an error (lemma \<open>searchID_absent\<close>) -- unless the
  catalog is empty. The check sits in the loop over the catalog, at its last entry; with
  no entry the loop body never runs, the flag stays false, and the run prints the line
  of a halo that the snapshot does not have.
\<close>

theorem C5_absent_ID_in_empty_catalog:
  "validate (readVars haloIDFile) = None \<and>
   ReadSortedRockstarIDs emptyCatalog 10 (- 1) = Inr [] \<and>
   findOverlapSubs emptyCatalog [7] [10] (readVars haloIDFile) = Inr [False] \<and>
   Run emptyCatalog (readVars haloIDFile) =
     Inr [''# Column contents: ID(0) Snapshot(1)'', ''7 10 '']"
proof -
  let ?c = "readVars haloIDFile"
  have v: "validate ?c = None"
    by (simp add: validate_steps checkIDType_def checkExclusion_def checkIDs_def
        checkSnap_def checkMult_def example_haloID_config)
  have f: "findOverlapSubs emptyCatalog [7] [10] ?c = Inr [False]"
    by (simp add: findOverlapSubs_def index_def appendGroup_def getGroup_def
        emptyCatalog_fields)
  have g: "getIDsAndSnapshots emptyCatalog ?c = Inr ([7], [10])"
    by (simp add: getIDsAndSnapshots_def getIDs_def resolveIDs_def fillSnaps_replicate
        index_def example_haloID_config emptyCatalog_fields)
  have t: "tagSubhalos emptyCatalog ?c [7] [10] = Inr [False]"
    by (simp add: tagSubhalos_def example_haloID_config f)
  have fc: "FormatCols exampleRow [[7], [10]] [0, 1] = [''7 10 '']"
    using FormatCols_two [of "[10]" "[7]" exampleRow]
    by (simp add: example_rows)
  have l: "generateLines emptyCatalog ?c [7] [10] [False] =
     Inr [''# Column contents: ID(0) Snapshot(1)'', ''7 10 '']"
    unfolding generateLines_def emptyCatalog_fields fc
    by (simp add: index_def multiplyLines_concat example_haloID_config)
  have r: "Run emptyCatalog ?c = Inr [''# Column contents: ID(0) Snapshot(1)'', ''7 10 '']"
    by (simp add: Run_def g t l emptyCatalog_fields example_haloID_config)
  from v f r show ?thesis
    by (simp add: emptyCatalog_fields)
qed

text \<open>
  C6: the output of every successful run is one leading line, the comment line that names
  the columns, followed by the lines of the selections that were not excluded, in the
  order of the selection, each \<open>mult\<close> times; a line prints the two integer columns
  \<open>[HaloID, Snapshot]\<close> in that order, and an excluded selection has no line. (Every
  selection has a flag: \<open>exclude\<close> is at least as long as the list of resolved IDs.)
\<close>

theorem C6_Run_output_rows:
  "Run ext config = Inr out \<Longrightarrow>
   \<exists>resolved snaps exclude.
     getIDsAndSnapshots ext config = Inr (resolved, snaps) \<and>
     tagSubhalos ext config resolved snaps = Inr exclude \<and>
     length resolved \<le> length exclude \<and>
     out = CommentString ext #
       concat (map (\<lambda>(h, x). replicate (nat (mult config)) (FormatRow ext [h, snap config]))
         (filter (\<lambda>(h, x). \<not> x) (zip resolved exclude)))"
  by (rule Run_rows)

theorem C6_Run_output_rows_witness:
  "Run exampleExternals (readVars overlapFile) =
     Inr [''# Column contents: ID(0) Snapshot(1)'', ''7 10 '', ''7 10 '', ''9 10 '', ''9 10 ''] \<and>
   [''# Column contents: ID(0) Snapshot(1)'', ''7 10 '', ''7 10 '', ''9 10 '', ''9 10 ''] =
     CommentString exampleExternals #
       concat (map (\<lambda>(h, x). replicate (nat (mult (readVars overlapFile)))
                  (FormatRow exampleExternals [h, snap (readVars overlapFile)]))
         (filter (\<lambda>(h, x). \<not> x) (zip [7, 3, 9] [False, True, False])))"
proof -
  let ?c = "readVars overlapFile"
  have g: "getIDsAndSnapshots exampleExternals ?c = Inr ([7, 3, 9], [10, 10, 10])"
    by (rule example_getIDsAndSnapshots) (simp_all add: example_overlap_config)
  have t: "tagSubhalos exampleExternals ?c [7, 3, 9] [10, 10, 10] = Inr [False, True, False]"
    by (simp add: tagSubhalos_def example_overlap_config example_findOverlapSubs)
  from C6_Run_output_rows [OF example_overlap_Run] obtain resolved snaps exclude where
    a: "getIDsAndSnapshots exampleExternals ?c = Inr (resolved, snaps)" and
    b: "tagSubhalos exampleExternals ?c resolved snaps = Inr exclude" and
    c: "[''# Column contents: ID(0) Snapshot(1)'', ''7 10 '', ''7 10 '', ''9 10 '', ''9 10 ''] =
     CommentString exampleExternals #
       concat (map (\<lambda>(h, x). replicate (nat (mult ?c)) (FormatRow exampleExternals [h, snap ?c]))
         (filter (\<lambda>(h, x). \<not> x) (zip resolved exclude)))"
    by blast
  from a g have r: "resolved = [7, 3, 9]" and s: "snaps = [10, 10, 10]"
    by simp_all
  from b t r s have e: "exclude = [False, True, False]"
    by simp
  from c show ?thesis
    unfolding r e by (simp only: example_overlap_Run simp_thms)
qed




text \<open>
  C8: \<open>validate\<close>, a function of the configuration alone, rejects with a
  \<open>ConfigError\<close> every configuration whose strategy is \<open>overlap\<close> and whose
  \<open>exclusionRadiusMult\<close> is not positive: the error names \<open>ExclusionRadiusMult\<close>
  unless the switch on \<open>idType\<close>, which comes first, has already rejected it. Under the
  strategy \<open>none\<close> the value of \<open>exclusionRadiusMult\<close> does not change the result of
  \<open>validate\<close>.
\<close>

theorem C8_validate_radius_mult_only_for_overlap:
  "(exclusionStrategy c = ''overlap'' \<and> exclusionRadiusMult c \<le> 0 \<longrightarrow>
      validate c =
        Some (ConfigError (if checkIDType c = None then ''ExclusionRadiusMult'' else ''IDType''))) \<and>
   (exclusionStrategy c = ''none'' \<longrightarrow>
      validate (c \<lparr> exclusionRadiusMult := x \<rparr>) = validate c)"
proof (intro conjI impI)
  assume "exclusionStrategy c = ''overlap'' \<and> exclusionRadiusMult c \<le> 0"
  then have "checkExclusion c = Some (ConfigError ''ExclusionRadiusMult'')"
    by (simp add: checkExclusion_def)
  with checkIDType_cases [of c]
  show "validate c =
    Some (ConfigError (if checkIDType c = None then ''ExclusionRadiusMult'' else ''IDType''))"
    by (auto simp: validate_steps)
next
  assume "exclusionStrategy c = ''none''"
  then show "validate (c \<lparr> exclusionRadiusMult := x \<rparr>) = validate c"
    by (simp add: validate_steps checkIDType_def checkExclusion_def checkIDs_def
        checkSnap_def checkMult_def)
qed

theorem C8_validate_radius_mult_witness:
  "validate (readVars (overlapFile \<lparr> fExclusionRadiusMult := Some 0 \<rparr>)) =
     Some (ConfigError ''ExclusionRadiusMult'') \<and>
   validate (readVars (overlapFile \<lparr> fExclusionRadiusMult := Some 1 \<rparr>)) = None \<and>
   validate (readVars (exampleFile \<lparr> fExclusionStrategy := Some ''none'',
     fExclusionRadiusMult := Some (- 1) \<rparr>)) = None"
proof -
  let ?c = "readVars (overlapFile \<lparr> fExclusionRadiusMult := Some 0 \<rparr>)"
  let ?d = "readVars (exampleFile \<lparr> fExclusionStrategy := Some ''none'' \<rparr>)"
  have c: "exclusionStrategy ?c = ''overlap'' \<and> exclusionRadiusMult ?c \<le> 0"
    by (simp add: readVars_def overlapFile_def exampleFile_def noFile_def var_def)
  have ct: "checkIDType ?c = None"
    by (simp add: checkIDType_def readVars_def overlapFile_def exampleFile_def noFile_def var_def)
  have d: "exclusionStrategy ?d = ''none''"
    by (simp add: readVars_def exampleFile_def noFile_def var_def)
  have dv: "validate ?d = None"
    by (simp add: validate_steps checkIDType_def checkExclusion_def checkIDs_def
        checkSnap_def checkMult_def readVars_def exampleFile_def noFile_def var_def)
  have e: "readVars (exampleFile \<lparr> fExclusionStrategy := Some ''none'',
      fExclusionRadiusMult := Some (- 1) \<rparr>) = ?d \<lparr> exclusionRadiusMult := - 1 \<rparr>"
    by (simp add: readVars_def exampleFile_def noFile_def var_def)
  have o: "validate (readVars (overlapFile \<lparr> fExclusionRadiusMult := Some 1 \<rparr>)) = None"
    by (simp add: validate_steps checkIDType_def checkExclusion_def checkIDs_def
        checkSnap_def checkMult_def readVars_def overlapFile_def exampleFile_def noFile_def
        var_def)
  from C8_validate_radius_mult_only_for_overlap [of ?c] c ct
  have 1: "validate ?c = Some (ConfigError ''ExclusionRadiusMult'')"
    by simp
  from C8_validate_radius_mult_only_for_overlap [of ?d "- 1"] d dv e
  have 2: "validate (readVars (exampleFile \<lparr> fExclusionStrategy := Some ''none'',
      fExclusionRadiusMult := Some (- 1) \<rparr>)) = None"
    by simp
  from 1 2 o show ?thesis by simp
qed

text \<open>
  C9: when the file does not set \<open>ExclusionStrategy\<close>, the configuration read from it
  has the strategy \<open>subhalo\<close>; the switch of \<open>validate\<close> on the strategy accepts it, so
  that \<open>ReadConfig\<close> returns the configuration whenever the other variables are valid;
  and a run of it whose snapshot checks pass and whose IDs are resolved ends in the
  \<open>subhalo\<close> branch of \<open>Run\<close>, the panic.
\<close>

theorem C9_default_strategy_is_subhalo:
  "fExclusionStrategy f = None \<Longrightarrow>
     exclusionStrategy (readVars f) = ''subhalo'' \<and>
     checkExclusion (readVars f) = None \<and>
     (validate (readVars f) = None \<longrightarrow> ReadConfig (Parsed f) = Inr (readVars f)) \<and>
     (snap (readVars f) \<noteq> - 1 \<and> SnapMin ext \<le> snap (readVars f) \<and>
      snap (readVars f) \<le> SnapMax ext \<and>
      (\<exists>p. getIDsAndSnapshots ext (readVars f) = Inr p) \<longrightarrow>
        Run ext (readVars f) = Inl (Panic ''subhalo is not implemented''))"
proof -
  assume "fExclusionStrategy f = None"
  then have s: "exclusionStrategy (readVars f) = ''subhalo''"
    by (simp add: readVars_def var_def)
  then have c: "checkExclusion (readVars f) = None"
    by (simp add: checkExclusion_def)
  have r: "Run ext (readVars f) = Inl (Panic ''subhalo is not implemented'')"
    if "snap (readVars f) \<noteq> - 1 \<and> SnapMin ext \<le> snap (readVars f) \<and>
      snap (readVars f) \<le> SnapMax ext \<and> (\<exists>p. getIDsAndSnapshots ext (readVars f) = Inr p)"
  proof -
    from that obtain p where "snap (readVars f) \<noteq> - 1" "SnapMin ext \<le> snap (readVars f)"
      "snap (readVars f) \<le> SnapMax ext" "getIDsAndSnapshots ext (readVars f) = Inr p"
      by blast
    with s show ?thesis by (rule Run_subhalo_panics)
  qed
  from s c r show ?thesis by simp
qed

theorem C9_default_strategy_is_subhalo_witness:
  "fExclusionStrategy exampleFile = None \<and>
   ReadConfig (Parsed exampleFile) = Inr (readVars exampleFile) \<and>
   exclusionStrategy (readVars exampleFile) = ''subhalo'' \<and>
   Run exampleExternals (readVars exampleFile) = Inl (Panic ''subhalo is not implemented'')"
proof -
  let ?c = "readVars exampleFile"
  have n: "fExclusionStrategy exampleFile = None"
    by (simp add: exampleFile_def noFile_def)
  have g: "getIDsAndSnapshots exampleExternals ?c = Inr ([7, 3, 9], [10, 10, 10])"
    by (rule example_getIDsAndSnapshots) (simp_all add: example_config)
  then have "\<exists>p. getIDsAndSnapshots exampleExternals ?c = Inr p" by blast
  with C9_default_strategy_is_subhalo [OF n, of exampleExternals] n show ?thesis
    by (simp add: example_config example_limits example_validate)
qed

text \<open>
  C10: in every run that resolves its selection, by either branch of the switch on
  \<open>idType\<close>, every entry of \<open>snaps\<close> is \<open>config.snap\<close>; the grouping loop of
  \<open>findOverlapSubs\<close> builds exactly one group from it, the one of \<open>config.snap\<close>, which
  holds every resolved ID; and every line after the comment line of the output prints
  \<open>config.snap\<close> in its Snapshot column.
\<close>

theorem C10_every_snapshot_is_config_snap:
  "getIDsAndSnapshots ext config = Inr (resolved, snaps) \<Longrightarrow>
     snaps = replicate (length resolved) (snap config) \<and>
     groupLoop 0 resolved snaps [] [] =
       Inr ([(snap config, resolved)], [(snap config, [0..<length resolved])]) \<and>
     (\<forall>out. Run ext config = Inr out \<longrightarrow>
        (\<exists>hs. out = CommentString ext # map (\<lambda>h. FormatRow ext [h, snap config]) hs))"
proof -
  assume g: "getIDsAndSnapshots ext config = Inr (resolved, snaps)"
  from getIDsAndSnapshots_snaps [OF g]
  have s: "snaps = replicate (length resolved) (snap config)" and ne: "resolved \<noteq> []"
    by simp_all
  have grp: "groupLoop 0 resolved snaps [] [] =
       Inr ([(snap config, resolved)], [(snap config, [0..<length resolved])])"
    unfolding s by (rule groupLoop_start [OF ne])
  have rows: "\<exists>hs. out = CommentString ext # map (\<lambda>h. FormatRow ext [h, snap config]) hs"
    if "Run ext config = Inr out" for out
  proof -
    from Run_rows [OF that] obtain rs ss ex where
      "out = CommentString ext #
         concat (map (\<lambda>(h, x). replicate (nat (mult config)) (FormatRow ext [h, snap config]))
           (filter (\<lambda>(h, x). \<not> x) (zip rs ex)))"
      by blast
    then have "out = CommentString ext # map (\<lambda>h. FormatRow ext [h, snap config])
        (concat (map (\<lambda>(h, x). replicate (nat (mult config)) h)
           (filter (\<lambda>(h, x). \<not> x) (zip rs ex))))"
      by (simp only: rows_map [of _ "\<lambda>h. FormatRow ext [h, snap config]"])
    then show ?thesis by blast
  qed
  show ?thesis
  proof (intro conjI allI impI)
    show "snaps = replicate (length resolved) (snap config)" by (rule s)
    show "groupLoop 0 resolved snaps [] [] =
       Inr ([(snap config, resolved)], [(snap config, [0..<length resolved])])" by (rule grp)
    fix out assume "Run ext config = Inr out"
    then show "\<exists>hs. out = CommentString ext # map (\<lambda>h. FormatRow ext [h, snap config]) hs"
      by (rule rows)
  qed
qed

theorem C10_every_snapshot_is_config_snap_witness:
  "getIDsAndSnapshots exampleExternals (readVars overlapFile) = Inr ([7, 3, 9], [10, 10, 10]) \<and>
   snap (readVars overlapFile) = 10 \<and>
   groupLoop 0 [7, 3, 9] [10, 10, 10] [] [] = Inr ([(10, [7, 3, 9])], [(10, [0, 1, 2])]) \<and>
   Run exampleExternals (readVars overlapFile) =
     Inr [''# Column contents: ID(0) Snapshot(1)'', ''7 10 '', ''7 10 '', ''9 10 '', ''9 10 ''] \<and>
   [''# Column contents: ID(0) Snapshot(1)'', ''7 10 '', ''7 10 '', ''9 10 '', ''9 10 ''] =
     CommentString exampleExternals # map (\<lambda>h. FormatRow exampleExternals [h, 10]) [7, 7, 9, 9]"
proof -
  let ?c = "readVars overlapFile"
  have g: "getIDsAndSnapshots exampleExternals ?c = Inr ([7, 3, 9], [10, 10, 10])"
    by (rule example_getIDsAndSnapshots) (simp_all add: example_overlap_config)
  have u: "[0..<length [7, 3, 9 :: int]] = [0, 1, 2]"
    by (simp add: upt_rec)
  have r: "[''# Column contents: ID(0) Snapshot(1)'', ''7 10 '', ''7 10 '', ''9 10 '', ''9 10 ''] =
     CommentString exampleExternals # map (\<lambda>h. FormatRow exampleExternals [h, 10]) [7, 7, 9, 9]"
    by (simp add: exampleExternals_def example_rows)
  from C10_every_snapshot_is_config_snap [OF g] g u r example_overlap_Run show ?thesis
    by (simp add: example_overlap_config)
qed

end
